theory Spec2Isabelle
  imports Complex_Main
begin

section \<open>Token records\<close>

text \<open>
  A JavaScript number is an IEEE double. Only its classification matters to the code
  modelled here (truthiness in \<^verbatim>\<open>x || 0\<close>, and what \<^verbatim>\<open>JSON.stringify\<close> does with it), so a
  finite double other than -0 is represented by its mathematical value, and -0, NaN and
  the two infinities are constructors of their own.
\<close>

datatype jsnumber = Finite rat | NegZero | NaN | PosInfinity | NegInfinity

text \<open>The interface \<^verbatim>\<open>TokenData\<close> of \<^verbatim>\<open>types.ts\<close>, field by field.\<close>

record TokenData =
  token_address :: string
  token_name :: string
  token_ticker :: string
  price_sol :: jsnumber
  market_cap_sol :: jsnumber
  volume_sol :: jsnumber
  liquidity_sol :: jsnumber
  transaction_count :: jsnumber
  price_1hr_change :: jsnumber
  protocol :: string

section \<open>Strings\<close>

text \<open>
  \<^verbatim>\<open>String.prototype.toLowerCase\<close>, on strings of ASCII characters (token addresses are
  hexadecimal or base-58 text): the letters A to Z move to a to z, every other character
  stays.
\<close>

definition to_lower_char :: "char \<Rightarrow> char" where
  "to_lower_char c =
     (let n = (of_char c :: nat) in if 65 \<le> n \<and> n \<le> 90 then char_of (n + 32) else c)"

definition toLowerCase :: "string \<Rightarrow> string" where
  "toLowerCase s = map to_lower_char s"

section \<open>The insertion-ordered Map of JavaScript\<close>

text \<open>
  \<^verbatim>\<open>Map\<close> keeps its entries in insertion order; \<^verbatim>\<open>set\<close> on a key that is present
  replaces the value and leaves the entry where it is, \<^verbatim>\<open>set\<close> on a new key appends.
  An association list with that update is the same structure.
\<close>

type_synonym ('k, 'v) jsmap = "('k \<times> 'v) list"

definition Map_has :: "'k \<Rightarrow> ('k, 'v) jsmap \<Rightarrow> bool" where
  "Map_has k m = (k \<in> set (map fst m))"

primrec Map_set :: "'k \<Rightarrow> 'v \<Rightarrow> ('k, 'v) jsmap \<Rightarrow> ('k, 'v) jsmap" where
  "Map_set k v [] = [(k, v)]"
| "Map_set k v (p # ps) = (if fst p = k then (k, v) # ps else p # Map_set k v ps)"

definition Map_values :: "('k, 'v) jsmap \<Rightarrow> 'v list" where
  "Map_values m = map snd m"

section \<open>AggregatorService.mergeTokenData\<close>

text \<open>
  The body of the first \<^verbatim>\<open>forEach\<close>: a token with a truthy (non-empty) address is
  stored under its lowercased address, replacing what was there.
\<close>

definition add_dex :: "(string, TokenData) jsmap \<Rightarrow> TokenData \<Rightarrow> (string, TokenData) jsmap" where
  "add_dex tokenMap token =
     (if token_address token \<noteq> []
      then Map_set (toLowerCase (token_address token)) token tokenMap
      else tokenMap)"

text \<open>
  The body of the second \<^verbatim>\<open>forEach\<close>: a token with a non-empty address is stored
  only when its lowercased address is not yet a key of the map.
\<close>

definition add_jup :: "(string, TokenData) jsmap \<Rightarrow> TokenData \<Rightarrow> (string, TokenData) jsmap" where
  "add_jup tokenMap token =
     (if token_address token \<noteq> []
      then (let address = toLowerCase (token_address token)
            in if Map_has address tokenMap then tokenMap
               else Map_set address token tokenMap)
      else tokenMap)"

text \<open>\<^verbatim>\<open>tokenMap\<close> after both loops, and the array made of its values.\<close>

definition tokenMap_of :: "TokenData list \<Rightarrow> TokenData list \<Rightarrow> (string, TokenData) jsmap" where
  "tokenMap_of dexData jupData = foldl add_jup (foldl add_dex [] dexData) jupData"

definition mergeTokenData :: "TokenData list \<Rightarrow> TokenData list \<Rightarrow> TokenData list" where
  "mergeTokenData dexData jupData = Map_values (tokenMap_of dexData jupData)"

section \<open>Vocabulary of the merge properties\<close>

definition normalized_address :: "TokenData \<Rightarrow> string" where
  "normalized_address t = toLowerCase (token_address t)"

definition has_address :: "TokenData \<Rightarrow> bool" where
  "has_address t = (token_address t \<noteq> [])"

text \<open>The normalized addresses a sequence contributes, records without address left out.\<close>

definition address_keys :: "TokenData list \<Rightarrow> string list" where
  "address_keys ts = map normalized_address (filter has_address ts)"

text \<open>Each element once, at the place of its first occurrence.\<close>

definition first_occurrences :: "'a list \<Rightarrow> 'a list" where
  "first_occurrences xs = rev (remdups (rev xs))"

definition stored_as :: "string \<Rightarrow> TokenData \<Rightarrow> bool" where
  "stored_as k t = (has_address t \<and> normalized_address t = k)"

text \<open>The last, and the first, record of a sequence with a given normalized address.\<close>

definition last_with :: "string \<Rightarrow> TokenData list \<Rightarrow> TokenData option" where
  "last_with k ts = find (\<lambda>t. normalized_address t = k) (rev ts)"

definition first_with :: "string \<Rightarrow> TokenData list \<Rightarrow> TokenData option" where
  "first_with k ts = find (\<lambda>t. normalized_address t = k) ts"

text \<open>
  The order the specification gives the merged sequence, written out: one record for each
  normalized address of the primary sequence, in the order in which these addresses first
  occur there, and then one record for each normalized address that only the secondary
  sequence has, in the order in which these first occur there.
\<close>

definition spec_primary_group :: "TokenData list \<Rightarrow> TokenData list" where
  "spec_primary_group p =
     List.map_filter (\<lambda>k. last_with k p) (first_occurrences (address_keys p))"

definition spec_secondary_group :: "TokenData list \<Rightarrow> TokenData list \<Rightarrow> TokenData list" where
  "spec_secondary_group p s =
     List.map_filter (\<lambda>k. first_with k s)
       (first_occurrences (filter (\<lambda>k. k \<notin> set (address_keys p)) (address_keys s)))"

section \<open>Errors\<close>

text \<open>
  What a rejected promise or a thrown exception carries: the rejection of
  \<^verbatim>\<open>axios.get\<close>, the \<^verbatim>\<open>TypeError\<close> of a property read on \<^verbatim>\<open>null\<close> or of a call of
  something that is no function, the \<^verbatim>\<open>SyntaxError\<close> of \<^verbatim>\<open>JSON.parse\<close>, and the
  rejection of a command of the Redis client.
\<close>

datatype error = AxiosError | TypeError | SyntaxError | RedisError

section \<open>The JavaScript runtime\<close>

text \<open>
  Parsing a decimal string into a double and adding two doubles round; the model takes
  both operations from the runtime rather than imitating the rounding.
\<close>

record js_runtime =
  parseFloat :: "string \<Rightarrow> jsnumber"
  plus :: "jsnumber \<Rightarrow> jsnumber \<Rightarrow> jsnumber"

text \<open>\<^verbatim>\<open>x || d\<close> on a string that may be absent: the empty string is falsy.\<close>

definition or_string :: "string option \<Rightarrow> string \<Rightarrow> string" where
  "or_string x d = (case x of None \<Rightarrow> d | Some s \<Rightarrow> if s = [] then d else s)"

text \<open>\<^verbatim>\<open>x || d\<close> on a number that may be absent: 0, -0 and NaN are falsy.\<close>

definition truthy_number :: "jsnumber \<Rightarrow> bool" where
  "truthy_number n = (n \<noteq> Finite 0 \<and> n \<noteq> NegZero \<and> n \<noteq> NaN)"

definition or_number :: "jsnumber option \<Rightarrow> jsnumber \<Rightarrow> jsnumber" where
  "or_number x d = (case x of None \<Rightarrow> d | Some n \<Rightarrow> if truthy_number n then n else d)"

text \<open>
  \<^verbatim>\<open>Array.prototype.map\<close> with a callback that may throw: the first exception ends
  the call.
\<close>

fun map_throwing :: "('a \<Rightarrow> error + 'b) \<Rightarrow> 'a list \<Rightarrow> error + 'b list" where
  "map_throwing f [] = Inr []"
| "map_throwing f (x # xs) =
     (case f x of
        Inl e \<Rightarrow> Inl e
      | Inr y \<Rightarrow> (case map_throwing f xs of Inl e \<Rightarrow> Inl e | Inr ys \<Rightarrow> Inr (y # ys)))"

section \<open>Upstream answers\<close>

text \<open>
  What an HTTP GET comes back with: no answer at all, or a status and a body.
  \<^verbatim>\<open>axios.get\<close> resolves on a status from 200 to 299 and rejects otherwise.
\<close>

datatype 'd http_result = NetworkFailure | HttpResponse nat 'd

definition axios_get :: "'d http_result \<Rightarrow> error + (nat \<times> 'd)" where
  "axios_get r =
     (case r of
        NetworkFailure \<Rightarrow> Inl AxiosError
      | HttpResponse status d \<Rightarrow>
          if 200 \<le> status \<and> status < 300 then Inr (status, d) else Inl AxiosError)"

text \<open>
  The body of a DexScreener answer, after \<^verbatim>\<open>DexScreenerResponse\<close> of \<^verbatim>\<open>types.ts\<close>.
  The code reads every field through \<^verbatim>\<open>?.\<close> and \<^verbatim>\<open>||\<close>, so every field may be absent.
  The shapes that make the code leave its normal path are constructors of their own: a
  falsy body, a body without \<^verbatim>\<open>pairs\<close>, \<^verbatim>\<open>pairs\<close> that is no array (the call of
  \<^verbatim>\<open>map\<close> throws), and a \<^verbatim>\<open>null\<close> element (the read of \<^verbatim>\<open>pair.baseToken\<close> throws).
\<close>

datatype base_token = BaseToken (bt_address: "string option") (bt_name: "string option")
  (bt_symbol: "string option")

datatype dex_volume = Volume (volume_h24: "jsnumber option")

datatype dex_liquidity = Liquidity (liquidity_usd: "jsnumber option")

datatype dex_priceChange = PriceChange (priceChange_h1: "jsnumber option")

datatype dex_counts = Counts (buys: "jsnumber option") (sells: "jsnumber option")

datatype dex_txns = Txns (txns_h24: "dex_counts option")

datatype dex_pair = DexPair
  (baseToken: "base_token option")
  (priceNative: "string option")
  (fdv: "jsnumber option")
  (volume: "dex_volume option")
  (liquidity: "dex_liquidity option")
  (txns: "dex_txns option")
  (priceChange: "dex_priceChange option")
  (dexId: "string option")

text \<open>
  An element of the array: \<^verbatim>\<open>null\<close>, or a value whose fields can be read (a field that is
  not there reads as absent).
\<close>

datatype 'a element = NullElement | Object 'a

datatype dex_data = DexNoData | DexNoPairs | DexPairsNotArray | DexPairs "dex_pair element list"

text \<open>The body of a Jupiter answer: the code wants an array of objects.\<close>

datatype jup_token = JupToken (jt_address: "string option") (jt_name: "string option")
  (jt_symbol: "string option")

datatype jup_data = JupNoData | JupNotArray | JupArray "jup_token element list"

section \<open>FetcherService\<close>

text \<open>The callback of \<^verbatim>\<open>pairs.map\<close> in \<^verbatim>\<open>fetchDexScreenerData\<close>.\<close>

definition dex_pair_token :: "js_runtime \<Rightarrow> dex_pair element \<Rightarrow> error + TokenData" where
  "dex_pair_token rt e =
     (case e of
        NullElement \<Rightarrow> Inl TypeError
      | Object pair \<Rightarrow> Inr
          \<lparr> token_address = or_string (Option.bind (baseToken pair) bt_address) [],
            token_name = or_string (Option.bind (baseToken pair) bt_name) [],
            token_ticker = or_string (Option.bind (baseToken pair) bt_symbol) [],
            price_sol = parseFloat rt (or_string (priceNative pair) ''0''),
            market_cap_sol = or_number (fdv pair) (Finite 0),
            volume_sol = or_number (Option.bind (volume pair) volume_h24) (Finite 0),
            liquidity_sol = or_number (Option.bind (liquidity pair) liquidity_usd) (Finite 0),
            transaction_count =
              plus rt
                (or_number (Option.bind (Option.bind (txns pair) txns_h24) buys) (Finite 0))
                (or_number (Option.bind (Option.bind (txns pair) txns_h24) sells) (Finite 0)),
            price_1hr_change = or_number (Option.bind (priceChange pair) priceChange_h1) (Finite 0),
            protocol = or_string (dexId pair) [] \<rparr>)"

text \<open>The block under \<^verbatim>\<open>try\<close> in \<^verbatim>\<open>fetchDexScreenerData\<close>.\<close>

definition fetchDexScreenerData_try :: "js_runtime \<Rightarrow> dex_data http_result \<Rightarrow> error + TokenData list" where
  "fetchDexScreenerData_try rt r =
     (case axios_get r of
        Inl e \<Rightarrow> Inl e
      | Inr (status, data) \<Rightarrow>
          (case data of
             DexNoData \<Rightarrow> Inr []
           | DexNoPairs \<Rightarrow> Inr []
           | DexPairsNotArray \<Rightarrow> Inl TypeError
           | DexPairs pairs \<Rightarrow> map_throwing (dex_pair_token rt) pairs))"

text \<open>The whole function: \<^verbatim>\<open>catch\<close> answers every exception with the empty array.\<close>

definition fetchDexScreenerData :: "js_runtime \<Rightarrow> dex_data http_result \<Rightarrow> error + TokenData list" where
  "fetchDexScreenerData rt r =
     (case fetchDexScreenerData_try rt r of Inl e \<Rightarrow> Inr [] | Inr tokens \<Rightarrow> Inr tokens)"

text \<open>The callback of \<^verbatim>\<open>response.data.map\<close> in \<^verbatim>\<open>fetchJupiterData\<close>.\<close>

definition jup_token_token :: "jup_token element \<Rightarrow> error + TokenData" where
  "jup_token_token e =
     (case e of
        NullElement \<Rightarrow> Inl TypeError
      | Object token \<Rightarrow> Inr
          \<lparr> token_address = or_string (jt_address token) [],
            token_name = or_string (jt_name token) [],
            token_ticker = or_string (jt_symbol token) [],
            price_sol = Finite 0,
            market_cap_sol = Finite 0,
            volume_sol = Finite 0,
            liquidity_sol = Finite 0,
            transaction_count = Finite 0,
            price_1hr_change = Finite 0,
            protocol = ''Jupiter'' \<rparr>)"

definition fetchJupiterData_try :: "jup_data http_result \<Rightarrow> error + TokenData list" where
  "fetchJupiterData_try r =
     (case axios_get r of
        Inl e \<Rightarrow> Inl e
      | Inr (status, data) \<Rightarrow>
          (case data of
             JupNoData \<Rightarrow> Inr []
           | JupNotArray \<Rightarrow> Inr []
           | JupArray tokens \<Rightarrow> map_throwing jup_token_token tokens))"

definition fetchJupiterData :: "jup_data http_result \<Rightarrow> error + TokenData list" where
  "fetchJupiterData r =
     (case fetchJupiterData_try r of Inl e \<Rightarrow> Inr [] | Inr tokens \<Rightarrow> Inr tokens)"

section \<open>JSON\<close>

text \<open>
  The values \<^verbatim>\<open>getAggregatedData\<close> can hand to its caller: \<^verbatim>\<open>JSON.parse\<close> returns
  \<^verbatim>\<open>any\<close>, so the result of a cache hit is whatever the stored text denotes.
\<close>

datatype jsval = JNull | JBool bool | JNum jsnumber | JStr string
  | JArr "jsval list" | JObj "(string \<times> jsval) list"

definition token_value :: "TokenData \<Rightarrow> jsval" where
  "token_value t = JObj
     [(''token_address'', JStr (token_address t)),
      (''token_name'', JStr (token_name t)),
      (''token_ticker'', JStr (token_ticker t)),
      (''price_sol'', JNum (price_sol t)),
      (''market_cap_sol'', JNum (market_cap_sol t)),
      (''volume_sol'', JNum (volume_sol t)),
      (''liquidity_sol'', JNum (liquidity_sol t)),
      (''transaction_count'', JNum (transaction_count t)),
      (''price_1hr_change'', JNum (price_1hr_change t)),
      (''protocol'', JStr (protocol t))]"

definition tokens_value :: "TokenData list \<Rightarrow> jsval" where
  "tokens_value ts = JArr (map token_value ts)"

text \<open>
  \<^verbatim>\<open>JSON.stringify\<close> writes a finite number so that reading it gives the number back,
  writes -0 as 0, and writes NaN and the infinities as \<^verbatim>\<open>null\<close>. \<open>json_of v\<close> is the
  value that the text written for \<open>v\<close> denotes.
\<close>

definition json_number :: "jsnumber \<Rightarrow> jsval" where
  "json_number n =
     (case n of Finite q \<Rightarrow> JNum (Finite q) | NegZero \<Rightarrow> JNum (Finite 0) | _ \<Rightarrow> JNull)"

primrec json_of :: "jsval \<Rightarrow> jsval" where
  "json_of JNull = JNull"
| "json_of (JBool b) = JBool b"
| "json_of (JNum n) = json_number n"
| "json_of (JStr s) = JStr s"
| "json_of (JArr vs) = JArr (map json_of vs)"
| "json_of (JObj kvs) = JObj (map (map_prod id json_of) kvs)"

text \<open>
  A string of the cache: a JSON text, given by the value it denotes, or some other text
  (\<^verbatim>\<open>JSON.parse\<close> throws on it). A JSON text is never empty.
\<close>

datatype blob = JSONText jsval | OtherText string

definition JSON_stringify :: "jsval \<Rightarrow> blob" where
  "JSON_stringify v = JSONText (json_of v)"

definition JSON_parse :: "blob \<Rightarrow> error + jsval" where
  "JSON_parse b = (case b of JSONText v \<Rightarrow> Inr v | OtherText s \<Rightarrow> Inl SyntaxError)"

text \<open>The test \<^verbatim>\<open>if (cachedData)\<close> on a \<^verbatim>\<open>string | null\<close>.\<close>

definition truthy_blob :: "blob option \<Rightarrow> bool" where
  "truthy_blob c =
     (case c of None \<Rightarrow> False | Some (JSONText v) \<Rightarrow> True | Some (OtherText s) \<Rightarrow> s \<noteq> [])"

section \<open>The Redis client and CacheService\<close>

text \<open>
  The store: whether the commands of the client succeed, and for each key the string
  written and the second at which it expires. When the client does not reach the store a
  command rejects: this is the failed read, or write, of the cache.
  \<^verbatim>\<open>SET key value EX ttl\<close> at second \<open>now\<close> lets the entry live up to, not including,
  second \<open>now + ttl\<close>.
\<close>

record redis =
  connected :: bool
  entries :: "string \<Rightarrow> (blob \<times> nat) option"

definition client_get :: "redis \<Rightarrow> nat \<Rightarrow> string \<Rightarrow> error + blob option" where
  "client_get rd now key =
     (if \<not> connected rd then Inl RedisError
      else Inr (case entries rd key of
                  None \<Rightarrow> None
                | Some (b, expiry) \<Rightarrow> if now < expiry then Some b else None))"

definition client_set :: "redis \<Rightarrow> nat \<Rightarrow> string \<Rightarrow> blob \<Rightarrow> nat \<Rightarrow> error + redis" where
  "client_set rd now key val ex =
     (if \<not> connected rd then Inl RedisError
      else Inr (rd\<lparr>entries := (entries rd)(key \<mapsto> (val, now + ex))\<rparr>))"

text \<open>\<^verbatim>\<open>config.cacheTTL\<close> of \<^verbatim>\<open>config.ts\<close>, in seconds.\<close>

definition cacheTTL :: nat where
  "cacheTTL = 30"

definition CacheService_get :: "redis \<Rightarrow> nat \<Rightarrow> string \<Rightarrow> error + blob option" where
  "CacheService_get rd now key = client_get rd now key"

text \<open>The parameter \<^verbatim>\<open>ttl\<close> has the default \<^verbatim>\<open>config.cacheTTL\<close>.\<close>

definition CacheService_set :: "redis \<Rightarrow> nat \<Rightarrow> string \<Rightarrow> blob \<Rightarrow> nat option \<Rightarrow> error + redis" where
  "CacheService_set rd now key val ttl =
     client_set rd now key val (case ttl of None \<Rightarrow> cacheTTL | Some n \<Rightarrow> n)"

section \<open>AggregatorService.getAggregatedData\<close>

text \<open>The two upstream services, each answering the URL it is asked.\<close>

record world =
  dex_http :: "string \<Rightarrow> dex_data http_result"
  jup_http :: "string \<Rightarrow> jup_data http_result"

definition dexScreenerApi :: string where
  "dexScreenerApi = ''https://api.dexscreener.com/latest/dex''"

definition jupiterApi :: string where
  "jupiterApi = ''https://lite-api.jup.ag/tokens/v2/search''"

definition dex_url :: "string \<Rightarrow> string" where
  "dex_url query = dexScreenerApi @ ''/search?q='' @ query"

definition jup_url :: "string \<Rightarrow> string" where
  "jup_url query = jupiterApi @ ''?query='' @ query"

definition cacheKey :: "string \<Rightarrow> string" where
  "cacheKey query = ''tokens_v5:'' @ query"

text \<open>
  One call: what it returns or rejects with, the store afterwards, and the URLs it
  requested. The cache is read at second \<open>now\<close>; on a miss both adapters are started,
  and the write happens \<open>latency\<close> seconds later, when both have answered.
\<close>

record outcome =
  result :: "error + jsval"
  store :: redis
  requests :: "string list"

definition getAggregatedData ::
  "js_runtime \<Rightarrow> world \<Rightarrow> redis \<Rightarrow> nat \<Rightarrow> nat \<Rightarrow> string \<Rightarrow> outcome" where
  "getAggregatedData rt w rd now latency query =
     (case CacheService_get rd now (cacheKey query) of
        Inl e \<Rightarrow> \<lparr>result = Inl e, store = rd, requests = []\<rparr>
      | Inr cachedData \<Rightarrow>
          (case (if truthy_blob cachedData then cachedData else None) of
             Some b \<Rightarrow> \<lparr>result = JSON_parse b, store = rd, requests = []\<rparr>
           | None \<Rightarrow>
               (let reqs = [dex_url query, jup_url query] in
                case fetchDexScreenerData rt (dex_http w (dex_url query)) of
                  Inl e \<Rightarrow> \<lparr>result = Inl e, store = rd, requests = reqs\<rparr>
                | Inr dexData \<Rightarrow>
                    (case fetchJupiterData (jup_http w (jup_url query)) of
                       Inl e \<Rightarrow> \<lparr>result = Inl e, store = rd, requests = reqs\<rparr>
                     | Inr jupData \<Rightarrow>
                         (let mergedTokens = mergeTokenData dexData jupData in
                          case CacheService_set rd (now + latency) (cacheKey query)
                                 (JSON_stringify (tokens_value mergedTokens)) None of
                            Inl e \<Rightarrow> \<lparr>result = Inl e, store = rd, requests = reqs\<rparr>
                          | Inr rd' \<Rightarrow>
                              \<lparr>result = Inr (tokens_value mergedTokens), store = rd',
                                requests = reqs\<rparr>)))))"

section \<open>Vocabulary of the adapter and cache properties\<close>

text \<open>Values that \<^verbatim>\<open>JSON.stringify\<close> writes without loss: no NaN, no infinity, no -0.\<close>

primrec json_exact :: "jsval \<Rightarrow> bool" where
  "json_exact JNull = True"
| "json_exact (JBool b) = True"
| "json_exact (JNum n) = (case n of Finite q \<Rightarrow> True | _ \<Rightarrow> False)"
| "json_exact (JStr s) = True"
| "json_exact (JArr vs) = list_all json_exact vs"
| "json_exact (JObj kvs) = list_all (pred_prod (\<lambda>k. True) json_exact) kvs"

text \<open>
  The answers the specification calls failures: no answer, a status outside 200 to 299, a
  body without the array the adapter wants, or an array with a \<^verbatim>\<open>null\<close> element.
\<close>

definition dex_upstream_failure :: "dex_data http_result \<Rightarrow> bool" where
  "dex_upstream_failure r =
     (case r of
        NetworkFailure \<Rightarrow> True
      | HttpResponse status d \<Rightarrow>
          status < 200 \<or> 300 \<le> status \<or>
          (case d of DexPairs pairs \<Rightarrow> NullElement \<in> set pairs | _ \<Rightarrow> True))"

definition jup_upstream_failure :: "jup_data http_result \<Rightarrow> bool" where
  "jup_upstream_failure r =
     (case r of
        NetworkFailure \<Rightarrow> True
      | HttpResponse status d \<Rightarrow>
          status < 200 \<or> 300 \<le> status \<or>
          (case d of JupArray tokens \<Rightarrow> NullElement \<in> set tokens | _ \<Rightarrow> True))"

text \<open>The merged sequence a cache miss computes from the two upstream answers.\<close>

definition fresh_tokens :: "js_runtime \<Rightarrow> world \<Rightarrow> string \<Rightarrow> TokenData list" where
  "fresh_tokens rt w query =
     (case fetchDexScreenerData rt (dex_http w (dex_url query)) of
        Inl e \<Rightarrow> []
      | Inr dexData \<Rightarrow>
          (case fetchJupiterData (jup_http w (jup_url query)) of
             Inl e \<Rightarrow> []
           | Inr jupData \<Rightarrow> mergeTokenData dexData jupData))"

section \<open>Data of the test suite\<close>

text \<open>
  \<^verbatim>\<open>mockDexData\<close> and \<^verbatim>\<open>mockJupData\<close> of the aggregator tests, and two variations:
  the Jupiter record of Token A with its address in upper case, and a second Jupiter
  record for the address of Token C.
\<close>

definition tokenA :: TokenData where
  "tokenA = \<lparr> token_address = ''0x123'', token_name = ''Token A'', token_ticker = ''TKA'',
     price_sol = Finite (3 / 2), market_cap_sol = Finite 1000000, volume_sol = Finite 50000,
     liquidity_sol = Finite 100000, transaction_count = Finite 100,
     price_1hr_change = Finite (26 / 5), protocol = ''dex1'' \<rparr>"

definition tokenB :: TokenData where
  "tokenB = \<lparr> token_address = ''0x456'', token_name = ''Token B'', token_ticker = ''TKB'',
     price_sol = Finite (5 / 2), market_cap_sol = Finite 2000000, volume_sol = Finite 75000,
     liquidity_sol = Finite 150000, transaction_count = Finite 200,
     price_1hr_change = Finite (- 31 / 10), protocol = ''dex2'' \<rparr>"

definition jupiter_token :: "string \<Rightarrow> string \<Rightarrow> string \<Rightarrow> TokenData" where
  "jupiter_token a n s = \<lparr> token_address = a, token_name = n, token_ticker = s,
     price_sol = Finite 0, market_cap_sol = Finite 0, volume_sol = Finite 0,
     liquidity_sol = Finite 0, transaction_count = Finite 0,
     price_1hr_change = Finite 0, protocol = ''Jupiter'' \<rparr>"

definition jupA :: TokenData where
  "jupA = jupiter_token ''0x123'' ''Token A'' ''TKA''"

definition jupA_upper :: TokenData where
  "jupA_upper = jupiter_token ''0X123'' ''Token A'' ''TKA''"

definition jupC :: TokenData where
  "jupC = jupiter_token ''0x789'' ''Token C'' ''TKC''"

definition jupC_later :: TokenData where
  "jupC_later = jupiter_token ''0x789'' ''Token C again'' ''TKC''"

definition mockDexData :: "TokenData list" where
  "mockDexData = [tokenA, tokenB]"

definition mockJupData :: "TokenData list" where
  "mockJupData = [jupA, jupC]"

section \<open>Upstream answers and stores for the examples\<close>

text \<open>
  A runtime for the examples. It agrees with JavaScript where the examples use it:
  \<^verbatim>\<open>parseFloat("1.5")\<close> is 1.5, \<^verbatim>\<open>parseFloat("0")\<close> is 0, \<^verbatim>\<open>parseFloat("N/A")\<close> is NaN,
  and the sum of two small whole numbers is exact.
\<close>

definition example_runtime :: js_runtime where
  "example_runtime =
     \<lparr> parseFloat = (\<lambda>s. if s = ''1.5'' then Finite (3 / 2)
                          else if s = ''0'' then Finite 0 else NaN),
       plus = (\<lambda>a b. case (a, b) of (Finite x, Finite y) \<Rightarrow> Finite (x + y) | _ \<Rightarrow> NaN) \<rparr>"

text \<open>A DexScreener pair that maps to Token A, with the native price as given.\<close>

definition pairA :: "string \<Rightarrow> dex_pair" where
  "pairA price = DexPair
     (Some (BaseToken (Some ''0x123'') (Some ''Token A'') (Some ''TKA'')))
     (Some price)
     (Some (Finite 1000000))
     (Some (Volume (Some (Finite 50000))))
     (Some (Liquidity (Some (Finite 100000))))
     (Some (Txns (Some (Counts (Some (Finite 60)) (Some (Finite 40))))))
     (Some (PriceChange (Some (Finite (26 / 5)))))
     (Some ''dex1'')"

definition jupiter_answer :: "jup_data http_result" where
  "jupiter_answer = HttpResponse 200 (JupArray
     [Object (JupToken (Some ''0X123'') (Some ''Token A'') (Some ''TKA'')),
      Object (JupToken (Some ''0x789'') (Some ''Token C'') (Some ''TKC''))])"

text \<open>Both services answer; DexScreener gives the price as the string \<open>price\<close>.\<close>

definition example_world :: "string \<Rightarrow> world" where
  "example_world price =
     \<lparr> dex_http = (\<lambda>url. HttpResponse 200 (DexPairs [Object (pairA price)])),
       jup_http = (\<lambda>url. jupiter_answer) \<rparr>"

definition empty_store :: redis where
  "empty_store = \<lparr> connected = True, entries = (\<lambda>key. None) \<rparr>"

definition unreachable_store :: redis where
  "unreachable_store = \<lparr> connected = False, entries = (\<lambda>key. None) \<rparr>"

text \<open>
  Two calls for the query SOL on a store that starts empty, five seconds apart; the write
  of the first call happens at second 1. DexScreener gives the native price of Token A
  as 1.5 in the first pair of calls, and as the string N/A in the second pair.
\<close>

definition fine_first_call :: outcome where
  "fine_first_call =
     getAggregatedData example_runtime (example_world ''1.5'') empty_store 0 1 ''SOL''"

definition fine_second_call :: outcome where
  "fine_second_call =
     getAggregatedData example_runtime (example_world ''1.5'') (store fine_first_call) 5 1 ''SOL''"

definition nan_first_call :: outcome where
  "nan_first_call =
     getAggregatedData example_runtime (example_world ''N/A'') empty_store 0 1 ''SOL''"

definition nan_second_call :: outcome where
  "nan_second_call =
     getAggregatedData example_runtime (example_world ''N/A'') (store nan_first_call) 5 1 ''SOL''"

section \<open>Lemmas on strings and on the Map\<close>

lemma toLowerCase_Nil_iff: "toLowerCase s = [] \<longleftrightarrow> s = []"
  by (simp add: toLowerCase_def)

lemma stored_as_iff: "stored_as k t \<longleftrightarrow> k \<noteq> [] \<and> normalized_address t = k"
  by (auto simp: stored_as_def has_address_def normalized_address_def toLowerCase_Nil_iff)

lemma Map_set_keys:
  "map fst (Map_set k v m) = (if k \<in> set (map fst m) then map fst m else map fst m @ [k])"
  by (induction m) simp_all

lemma Map_set_lookup: "map_of (Map_set k v m) = (map_of m)(k \<mapsto> v)"
  by (induction m) (auto simp: fun_eq_iff)

lemma Map_has_lookup: "Map_has k m \<longleftrightarrow> map_of m k \<noteq> None"
  by (simp add: Map_has_def map_of_eq_None_iff)

lemma first_occurrences_snoc:
  "first_occurrences (xs @ [x]) =
     (if x \<in> set xs then first_occurrences xs else first_occurrences xs @ [x])"
  by (simp add: first_occurrences_def)

lemma set_first_occurrences: "set (first_occurrences xs) = set xs"
  by (simp add: first_occurrences_def)

lemma distinct_first_occurrences: "distinct (first_occurrences xs)"
  by (simp add: first_occurrences_def)

lemma find_snoc:
  "find P (xs @ [x]) =
     (case find P xs of Some y \<Rightarrow> Some y | None \<Rightarrow> if P x then Some x else None)"
  by (induction xs) simp_all

lemma find_SomeD: "find P xs = Some x \<Longrightarrow> P x \<and> x \<in> set xs"
  by (induction xs) (auto split: if_splits)

lemma find_None_iff': "find P xs = None \<longleftrightarrow> (\<forall>x\<in>set xs. \<not> P x)"
  by (induction xs) auto

section \<open>The two loops of the merge\<close>

lemma dex_keys: "map fst (foldl add_dex [] p) = first_occurrences (address_keys p)"
proof (induction p rule: rev_induct)
  case Nil
  show ?case by (simp add: address_keys_def first_occurrences_def)
next
  case (snoc t p)
  then show ?case
    by (simp add: add_dex_def address_keys_def Map_set_keys first_occurrences_snoc
        has_address_def normalized_address_def set_first_occurrences)
qed

lemma dex_lookup: "map_of (foldl add_dex [] p) k = find (stored_as k) (rev p)"
proof (induction p rule: rev_induct)
  case Nil
  show ?case by simp
next
  case (snoc t p)
  then show ?case
    by (auto simp: add_dex_def Map_set_lookup stored_as_def has_address_def normalized_address_def)
qed

lemma jup_keys:
  "map fst (tokenMap_of p s) =
     first_occurrences (address_keys p) @
     first_occurrences (filter (\<lambda>k. k \<notin> set (address_keys p)) (address_keys s))"
  unfolding tokenMap_of_def
proof (induction s rule: rev_induct)
  case Nil
  show ?case by (simp add: dex_keys address_keys_def first_occurrences_def)
next
  case (snoc t s)
  then show ?case
    by (auto simp: add_jup_def Let_def Map_has_def address_keys_def Map_set_keys first_occurrences_snoc
        has_address_def normalized_address_def set_first_occurrences)
qed

lemma jup_lookup:
  "map_of (tokenMap_of p s) k =
     (case find (stored_as k) (rev p) of Some r \<Rightarrow> Some r | None \<Rightarrow> find (stored_as k) s)"
  unfolding tokenMap_of_def
proof (induction s arbitrary: k rule: rev_induct)
  case Nil
  show ?case by (simp add: dex_lookup split: option.splits)
next
  case (snoc t s)
  define m where "m = foldl add_jup (foldl add_dex [] p) s"
  have IH: "map_of m k' =
     (case find (stored_as k') (rev p) of Some r \<Rightarrow> Some r | None \<Rightarrow> find (stored_as k') s)" for k'
    unfolding m_def by (rule snoc.IH)
  have step: "foldl add_jup (foldl add_dex [] p) (s @ [t]) = add_jup m t"
    by (simp add: m_def)
  show ?case
  proof (cases "has_address t")
    case False
    then have "add_jup m t = m" "\<not> stored_as k t"
      by (simp_all add: add_jup_def has_address_def stored_as_def)
    then show ?thesis
      unfolding step by (simp add: IH find_snoc split: option.splits)
  next
    case True
    define a where "a = normalized_address t"
    have st: "stored_as k' t \<longleftrightarrow> k' = a" for k'
      using True by (auto simp: stored_as_def a_def)
    show ?thesis
    proof (cases "Map_has a m")
      case True
      then have same: "add_jup m t = m"
        by (simp add: add_jup_def a_def normalized_address_def Let_def)
      from True have "map_of m a \<noteq> None"
        by (simp add: Map_has_lookup)
      then show ?thesis
        unfolding step same by (auto simp: IH find_snoc st split: option.splits)
    next
      case False
      with \<open>has_address t\<close> have upd: "add_jup m t = Map_set a t m"
        by (simp add: add_jup_def a_def normalized_address_def Let_def has_address_def)
      from False have "map_of m a = None"
        by (simp add: Map_has_lookup)
      then show ?thesis
        unfolding step upd by (auto simp: Map_set_lookup IH find_snoc st split: option.splits)
    qed
  qed
qed

lemma merge_unfold: "mergeTokenData p s = map snd (tokenMap_of p s)"
  by (simp add: mergeTokenData_def Map_values_def)

lemma keys_disjoint:
  "set (first_occurrences (address_keys p)) \<inter>
   set (first_occurrences (filter (\<lambda>k. k \<notin> set (address_keys p)) (address_keys s))) = {}"
  by (auto simp: set_first_occurrences)

lemma tokenMap_distinct: "distinct (map fst (tokenMap_of p s))"
  unfolding jup_keys using keys_disjoint [of p s]
  by (simp add: distinct_first_occurrences)

lemma tokenMap_entry: "(k, v) \<in> set (tokenMap_of p s) \<longleftrightarrow> map_of (tokenMap_of p s) k = Some v"
  using tokenMap_distinct [of p s] by simp

lemma lookup_stored: "map_of (tokenMap_of p s) k = Some v \<Longrightarrow> stored_as k v"
  unfolding jup_lookup by (auto split: option.splits dest: find_SomeD)

lemma merged_keys: "map normalized_address (mergeTokenData p s) = map fst (tokenMap_of p s)"
proof -
  have "normalized_address (snd e) = fst e" if "e \<in> set (tokenMap_of p s)" for e
  proof -
    from that have "map_of (tokenMap_of p s) (fst e) = Some (snd e)"
      using tokenMap_entry [of "fst e" "snd e" p s] by simp
    then show ?thesis
      using lookup_stored stored_as_def by blast 
  qed
  then show ?thesis
    unfolding merge_unfold by (simp add: comp_def)
qed

lemma merged_member:
  "r \<in> set (mergeTokenData p s) \<longleftrightarrow> map_of (tokenMap_of p s) (normalized_address r) = Some r"
proof
  assume "r \<in> set (mergeTokenData p s)"
  then obtain k where k: "(k, r) \<in> set (tokenMap_of p s)"
    unfolding merge_unfold by auto
  then have look: "map_of (tokenMap_of p s) k = Some r"
    by (simp add: tokenMap_entry)
  then have "stored_as k r" by (rule lookup_stored)
  then have "k = normalized_address r" by (simp add: stored_as_def)
  with look show "map_of (tokenMap_of p s) (normalized_address r) = Some r" by simp
next
  assume "map_of (tokenMap_of p s) (normalized_address r) = Some r"
  then have "(normalized_address r, r) \<in> set (tokenMap_of p s)"
    by (rule map_of_SomeD)
  then show "r \<in> set (mergeTokenData p s)"
    unfolding merge_unfold by force
qed

lemma stored_as_find: "k \<noteq> [] \<Longrightarrow> find (stored_as k) ts = find (\<lambda>t. normalized_address t = k) ts"
  by (rule find_cong) (simp_all add: stored_as_iff)

lemma key_of_sequence: "k \<in> set (address_keys ts) \<longleftrightarrow> k \<noteq> [] \<and> k \<in> normalized_address ` set ts"
  by (auto simp: address_keys_def has_address_def normalized_address_def toLowerCase_Nil_iff)

lemma merged_lookup:
  "r \<in> set (mergeTokenData p s) \<and> normalized_address r = k \<longleftrightarrow>
     (case find (stored_as k) (rev p) of Some x \<Rightarrow> Some x | None \<Rightarrow> find (stored_as k) s) = Some r"
proof -
  have "map_of (tokenMap_of p s) k = Some r \<Longrightarrow> normalized_address r = k"
    using lookup_stored [of p s k r] by (simp add: stored_as_def)
  then have "r \<in> set (mergeTokenData p s) \<and> normalized_address r = k \<longleftrightarrow>
      map_of (tokenMap_of p s) k = Some r"
    unfolding merged_member by blast
  then show ?thesis
    by (simp only: jup_lookup)
qed

lemma find_stored_Some: "find (stored_as k) ts \<noteq> None \<longleftrightarrow> k \<noteq> [] \<and> k \<in> normalized_address ` set ts"
  unfolding find_None_iff' stored_as_iff by blast

lemma merged_record:
  "r \<in> set (mergeTokenData p s) \<and> normalized_address r = k \<longleftrightarrow>
     k \<noteq> [] \<and> (if k \<in> normalized_address ` set p then last_with k p = Some r
                 else first_with k s = Some r)"
proof (cases "k = []")
  case True
  have "find (stored_as k) ts = None" for ts
    using find_stored_Some [of k ts] True by blast
  then show ?thesis
    unfolding merged_lookup using True by simp
next
  case ne: False
  show ?thesis
  proof (cases "k \<in> normalized_address ` set p")
    case True
    with ne have "find (stored_as k) (rev p) \<noteq> None"
      using find_stored_Some [of k "rev p"] by simp
    then obtain r' where r': "find (stored_as k) (rev p) = Some r'" by blast
    have "last_with k p = Some r'"
      unfolding last_with_def using r' stored_as_find [OF ne, of "rev p"] by simp
    with r' ne True show ?thesis
      unfolding merged_lookup by simp
  next
    case False
    then have none: "find (stored_as k) (rev p) = None"
      using find_stored_Some [of k "rev p"] by simp
    have "first_with k s = find (stored_as k) s"
      unfolding first_with_def using stored_as_find [OF ne, of s] by simp
    with none ne False show ?thesis
      unfolding merged_lookup by simp
  qed
qed

section \<open>The merged sequence in closed form\<close>

lemma map_filter_cong': "(\<And>x. x \<in> set xs \<Longrightarrow> f x = g x) \<Longrightarrow> List.map_filter f xs = List.map_filter g xs"
  by (induction xs) (auto split: option.splits)

lemma map_filter_append': "List.map_filter f (xs @ ys) = List.map_filter f xs @ List.map_filter f ys"
  by (simp add: List.map_filter_def)

lemma values_by_lookup:
  "distinct (map fst m) \<Longrightarrow> List.map_filter (map_of m) (map fst m) = map snd m"
proof (induction m)
  case Nil
  show ?case by simp
next
  case (Cons e m)
  obtain k v where e: "e = (k, v)" by (cases e)
  from Cons.prems have notin: "k \<notin> set (map fst m)" and dist: "distinct (map fst m)"
    by (simp_all add: e)
  have "List.map_filter (\<lambda>a. if a = k then Some v else map_of m a) (map fst m) =
      List.map_filter (map_of m) (map fst m)"
    by (rule map_filter_cong') (use notin in auto)
  with Cons.IH [OF dist] show ?case
    by (simp add: e fun_upd_def)
qed

lemma map_filter_keys:
  "(\<And>k. k \<in> set ks \<Longrightarrow> \<exists>r. f k = Some r \<and> g r = k) \<Longrightarrow> map g (List.map_filter f ks) = ks"
proof (induction ks)
  case Nil
  show ?case by simp
next
  case (Cons k ks)
  from Cons.prems [of k] obtain r where "f k = Some r" "g r = k" by auto
  moreover have "map g (List.map_filter f ks) = ks"
    by (rule Cons.IH) (simp add: Cons.prems)
  ultimately show ?case by simp
qed

lemma set_map_filter: "set (List.map_filter f ks) = {r. \<exists>k\<in>set ks. f k = Some r}"
  by (induction ks) (auto split: option.splits)

lemma lookup_primary:
  assumes "k \<in> set (address_keys p)"
  shows "map_of (tokenMap_of p s) k = last_with k p"
    and "\<exists>r. last_with k p = Some r \<and> normalized_address r = k \<and> r \<in> set p"
proof -
  from assms have ne: "k \<noteq> []" and "k \<in> normalized_address ` set p"
    by (simp_all add: key_of_sequence)
  then have "find (stored_as k) (rev p) \<noteq> None"
    using find_stored_Some [of k "rev p"] by simp
  then obtain r where r: "find (stored_as k) (rev p) = Some r" by blast
  have lw: "last_with k p = Some r"
    unfolding last_with_def using r stored_as_find [OF ne, of "rev p"] by simp
  show "map_of (tokenMap_of p s) k = last_with k p"
    by (simp add: jup_lookup r lw)
  from find_SomeD [OF r] have "normalized_address r = k" "r \<in> set p"
    by (simp_all add: stored_as_def)
  with lw show "\<exists>r. last_with k p = Some r \<and> normalized_address r = k \<and> r \<in> set p"
    by blast
qed

lemma lookup_secondary:
  assumes "k \<in> set (address_keys s)" "k \<notin> set (address_keys p)"
  shows "map_of (tokenMap_of p s) k = first_with k s"
    and "\<exists>r. first_with k s = Some r \<and> normalized_address r = k \<and> r \<in> set s"
proof -
  from assms have ne: "k \<noteq> []" and ins: "k \<in> normalized_address ` set s"
    and "k \<notin> normalized_address ` set p"
    by (simp_all add: key_of_sequence)
  then have none: "find (stored_as k) (rev p) = None"
    using find_stored_Some [of k "rev p"] by simp
  from ne ins have "find (stored_as k) s \<noteq> None"
    using find_stored_Some [of k s] by simp
  then obtain r where r: "find (stored_as k) s = Some r" by blast
  have fw: "first_with k s = Some r"
    unfolding first_with_def using r stored_as_find [OF ne, of s] by simp
  show "map_of (tokenMap_of p s) k = first_with k s"
    by (simp add: jup_lookup none r fw)
  from find_SomeD [OF r] have "normalized_address r = k" "r \<in> set s"
    by (simp_all add: stored_as_def)
  with fw show "\<exists>r. first_with k s = Some r \<and> normalized_address r = k \<and> r \<in> set s"
    by blast
qed

lemma merge_groups: "mergeTokenData p s = spec_primary_group p @ spec_secondary_group p s"
proof -
  let ?A = "first_occurrences (address_keys p)"
  let ?B = "first_occurrences (filter (\<lambda>k. k \<notin> set (address_keys p)) (address_keys s))"
  let ?T = "tokenMap_of p s"
  have "mergeTokenData p s = List.map_filter (map_of ?T) (map fst ?T)"
    unfolding merge_unfold by (rule values_by_lookup [symmetric]) (rule tokenMap_distinct)
  also have "\<dots> = List.map_filter (map_of ?T) ?A @ List.map_filter (map_of ?T) ?B"
    by (simp only: jup_keys map_filter_append')
  also have "List.map_filter (map_of ?T) ?A = spec_primary_group p"
    unfolding spec_primary_group_def
    by (rule map_filter_cong') (simp add: set_first_occurrences lookup_primary(1))
  also have "List.map_filter (map_of ?T) ?B = spec_secondary_group p s"
    unfolding spec_secondary_group_def
    by (rule map_filter_cong') (simp add: set_first_occurrences lookup_secondary(1))
  finally show ?thesis .
qed

lemma primary_group_keys:
  "map normalized_address (spec_primary_group p) = first_occurrences (address_keys p)"
  unfolding spec_primary_group_def
  by (rule map_filter_keys) (use lookup_primary(2) in \<open>auto simp: set_first_occurrences\<close>)

lemma secondary_group_keys:
  "map normalized_address (spec_secondary_group p s) =
     first_occurrences (filter (\<lambda>k. k \<notin> set (address_keys p)) (address_keys s))"
  unfolding spec_secondary_group_def
  by (rule map_filter_keys)
    (use lookup_secondary(2) [of _ s p] in \<open>auto simp: set_first_occurrences\<close>)

lemma primary_group_subset: "set (spec_primary_group p) \<subseteq> set p"
  unfolding spec_primary_group_def set_map_filter last_with_def
  by (auto dest: find_SomeD)

lemma secondary_group_subset: "set (spec_secondary_group p s) \<subseteq> set s"
  unfolding spec_secondary_group_def set_map_filter first_with_def
  by (auto dest: find_SomeD)

section \<open>Properties of the merge\<close>

text \<open>
  C7. For all inputs the merged sequence is the records of the primary sequence, one for
  each normalized address and in the order in which these addresses first occur in the
  primary sequence, followed by the records that only the secondary sequence has an
  address for, in the order in which these addresses first occur in the secondary
  sequence. The two groups are not interleaved.
\<close>

theorem merge_insertion_order:
  "mergeTokenData p s = spec_primary_group p @ spec_secondary_group p s
   \<and> map normalized_address (spec_primary_group p) = first_occurrences (address_keys p)
   \<and> map normalized_address (spec_secondary_group p s) =
       first_occurrences (filter (\<lambda>k. k \<notin> set (address_keys p)) (address_keys s))
   \<and> set (spec_primary_group p) \<subseteq> set p
   \<and> set (spec_secondary_group p s) \<subseteq> set s"
  using merge_groups primary_group_keys secondary_group_keys primary_group_subset
    secondary_group_subset by blast

theorem merge_insertion_order_witness:
  "mergeTokenData [tokenB, tokenA, tokenB] [jupC, jupA_upper, jupC_later] =
     spec_primary_group [tokenB, tokenA, tokenB] @
     spec_secondary_group [tokenB, tokenA, tokenB] [jupC, jupA_upper, jupC_later]
   \<and> spec_primary_group [tokenB, tokenA, tokenB] = [tokenB, tokenA]
   \<and> spec_secondary_group [tokenB, tokenA, tokenB] [jupC, jupA_upper, jupC_later] = [jupC]"
proof -
  have h1: "spec_primary_group [tokenB, tokenA, tokenB] = [tokenB, tokenA]" by code_simp
  have h2: "spec_secondary_group [tokenB, tokenA, tokenB] [jupC, jupA_upper, jupC_later] = [jupC]"
    by code_simp
  from merge_insertion_order [of "[tokenB, tokenA, tokenB]" "[jupC, jupA_upper, jupC_later]"] h1 h2
  show ?thesis by simp
qed

text \<open>
  C2. For all inputs the merged sequence holds at most one record for each normalized
  (lowercased) address.
\<close>

theorem merge_dedup: "distinct (map normalized_address (mergeTokenData p s))"
  unfolding merged_keys by (rule tokenMap_distinct)

theorem merge_dedup_witness:
  "distinct (map normalized_address (mergeTokenData mockDexData mockJupData))
   \<and> mergeTokenData mockDexData mockJupData = [tokenA, tokenB, jupC]"
proof -
  have "mergeTokenData mockDexData mockJupData = [tokenA, tokenB, jupC]" by code_simp
  with merge_dedup [of mockDexData mockJupData] show ?thesis by simp
qed

text \<open>
  C3. For all inputs the length of the merged sequence is the number of distinct
  normalized addresses of the primary sequence plus the number of distinct normalized
  addresses of the secondary sequence that do not occur in the primary sequence, records
  with an empty address counted on neither side.
\<close>

theorem merge_size:
  "length (mergeTokenData p s) =
     card (set (address_keys p)) + card (set (address_keys s) - set (address_keys p))"
proof -
  let ?A = "first_occurrences (address_keys p)"
  let ?B = "first_occurrences (filter (\<lambda>k. k \<notin> set (address_keys p)) (address_keys s))"
  have "length (mergeTokenData p s) = length (map fst (tokenMap_of p s))"
    by (simp add: merge_unfold)
  also have "\<dots> = length ?A + length ?B"
    by (simp only: jup_keys length_append)
  also have "length ?A = card (set ?A)"
    by (rule distinct_card [symmetric]) (rule distinct_first_occurrences)
  also have "length ?B = card (set ?B)"
    by (rule distinct_card [symmetric]) (rule distinct_first_occurrences)
  also have "set ?A = set (address_keys p)"
    by (rule set_first_occurrences)
  also have "set ?B = set (address_keys s) - set (address_keys p)"
    by (auto simp: set_first_occurrences)
  finally show ?thesis .
qed

theorem merge_size_witness:
  "length (mergeTokenData mockDexData mockJupData) = 3
   \<and> card (set (address_keys mockDexData)) = 2
   \<and> card (set (address_keys mockJupData) - set (address_keys mockDexData)) = 1"
proof -
  have h1: "card (set (address_keys mockDexData)) = 2" by code_simp
  have h2: "card (set (address_keys mockJupData) - set (address_keys mockDexData)) = 1"
    by code_simp
  from merge_size [of mockDexData mockJupData] h1 h2 show ?thesis by simp
qed

text \<open>
  C1. For every pair of inputs and every address that, lowercased, occurs in both: a
  record of the merged sequence with that normalized address is the last record of the
  primary sequence with that normalized address, whatever the secondary sequence holds
  for it; and when the address is not empty, the merged sequence has such a record.
\<close>

theorem primary_precedence:
  assumes "k \<in> normalized_address ` set p" and "k \<in> normalized_address ` set s"
  shows "(\<forall>r\<in>set (mergeTokenData p s). normalized_address r = k \<longrightarrow> last_with k p = Some r)
       \<and> (k \<noteq> [] \<longrightarrow> (\<exists>r\<in>set (mergeTokenData p s). normalized_address r = k))"
proof (intro conjI ballI impI)
  fix r assume "r \<in> set (mergeTokenData p s)" "normalized_address r = k"
  then show "last_with k p = Some r"
    using merged_record [of r p s k] assms(1) by simp
next
  assume ne: "k \<noteq> []"
  with assms(1) have "k \<in> set (address_keys p)"
    by (simp add: key_of_sequence)
  from lookup_primary(2) [OF this] obtain r where "last_with k p = Some r" by blast
  with ne assms(1) have "r \<in> set (mergeTokenData p s) \<and> normalized_address r = k"
    using merged_record [of r p s k] by simp
  then show "\<exists>r\<in>set (mergeTokenData p s). normalized_address r = k" by blast
qed

theorem primary_precedence_witness:
  "''0x123'' \<in> normalized_address ` set [tokenA]
   \<and> ''0x123'' \<in> normalized_address ` set [jupA_upper, jupC]
   \<and> token_address jupA_upper = ''0X123''
   \<and> tokenA \<in> set (mergeTokenData [tokenA] [jupA_upper, jupC])
   \<and> normalized_address tokenA = ''0x123''
   \<and> last_with ''0x123'' [tokenA] = Some tokenA"
proof -
  have h1: "''0x123'' \<in> normalized_address ` set [tokenA]" by code_simp
  have h2: "''0x123'' \<in> normalized_address ` set [jupA_upper, jupC]" by code_simp
  have h3: "token_address jupA_upper = ''0X123''" by code_simp
  have mem: "tokenA \<in> set (mergeTokenData [tokenA] [jupA_upper, jupC])" by code_simp
  have key: "normalized_address tokenA = ''0x123''" by code_simp
  from primary_precedence [OF h1 h2] mem key
  have "last_with ''0x123'' [tokenA] = Some tokenA" by blast
  with h1 h2 h3 mem key show ?thesis by blast
qed

text \<open>
  C4. The claim says that of two secondary records with the same normalized address,
  absent from the primary sequence, the later one appears in the merged sequence. The second
  loop stores a record only when its key is not yet in the map, so the first one stays and
  the later ones are dropped. As amended: for every normalized non-empty address that
  occurs in the secondary sequence and not in the primary sequence, the merged sequence has
  a record with that address, and it is the first record of the secondary sequence with
  that address.
\<close>

theorem secondary_first_wins:
  assumes "k \<noteq> []" and "k \<notin> normalized_address ` set p" and "k \<in> normalized_address ` set s"
  shows "(\<exists>r\<in>set (mergeTokenData p s). normalized_address r = k)
       \<and> (\<forall>r\<in>set (mergeTokenData p s). normalized_address r = k \<longrightarrow> first_with k s = Some r)"
proof (intro conjI ballI impI)
  from assms have "k \<in> set (address_keys s)" "k \<notin> set (address_keys p)"
    by (simp_all add: key_of_sequence)
  from lookup_secondary(2) [OF this] obtain r where "first_with k s = Some r" by blast
  with assms have "r \<in> set (mergeTokenData p s) \<and> normalized_address r = k"
    using merged_record [of r p s k] by simp
  then show "\<exists>r\<in>set (mergeTokenData p s). normalized_address r = k" by blast
next
  fix r assume "r \<in> set (mergeTokenData p s)" "normalized_address r = k"
  then show "first_with k s = Some r"
    using merged_record [of r p s k] assms(2) by simp
qed

theorem secondary_first_wins_witness:
  "''0x789'' \<noteq> []
   \<and> ''0x789'' \<notin> normalized_address ` set []
   \<and> ''0x789'' \<in> normalized_address ` set [jupC, jupC_later]
   \<and> jupC \<in> set (mergeTokenData [] [jupC, jupC_later])
   \<and> normalized_address jupC = ''0x789''
   \<and> first_with ''0x789'' [jupC, jupC_later] = Some jupC"
proof -
  have h1: "''0x789'' \<noteq> []" by simp
  have h2: "''0x789'' \<notin> normalized_address ` set []" by simp
  have h3: "''0x789'' \<in> normalized_address ` set [jupC, jupC_later]" by code_simp
  have mem: "jupC \<in> set (mergeTokenData [] [jupC, jupC_later])" by code_simp
  have key: "normalized_address jupC = ''0x789''" by code_simp
  from secondary_first_wins [OF h1 h2 h3] mem key
  have "first_with ''0x789'' [jupC, jupC_later] = Some jupC" by blast
  with h1 h2 h3 mem key show ?thesis by blast
qed

text \<open>
  With the two Jupiter records of the address 0x789 as the secondary sequence and nothing
  as the primary one, the merged sequence is the earlier record alone.
\<close>

theorem secondary_last_wins_counterexample:
  "normalized_address jupC = normalized_address jupC_later
   \<and> normalized_address jupC_later \<noteq> []
   \<and> normalized_address jupC_later \<notin> normalized_address ` set []
   \<and> mergeTokenData [] [jupC, jupC_later] = [jupC]
   \<and> jupC_later \<notin> set (mergeTokenData [] [jupC, jupC_later])"
  by code_simp

section \<open>The empty secondary sequence\<close>

lemma Map_set_new: "k \<notin> set (map fst m) \<Longrightarrow> Map_set k v m = m @ [(k, v)]"
  by (induction m) auto

lemma dex_loop_clean:
  "\<forall>t\<in>set p. has_address t \<Longrightarrow> distinct (map normalized_address p) \<Longrightarrow>
     foldl add_dex [] p = map (\<lambda>t. (normalized_address t, t)) p"
proof (induction p rule: rev_induct)
  case Nil
  show ?case by simp
next
  case (snoc t p)
  then have IH: "foldl add_dex [] p = map (\<lambda>t. (normalized_address t, t)) p"
    and new: "normalized_address t \<notin> set (map normalized_address p)"
    and addr: "token_address t \<noteq> []"
    by (simp_all add: has_address_def)
  let ?m = "map (\<lambda>t. (normalized_address t, t)) p"
  from new have fresh: "normalized_address t \<notin> set (map fst ?m)"
    by (simp add: comp_def)
  have "foldl add_dex [] (p @ [t]) = add_dex ?m t"
    by (simp add: IH)
  also have "\<dots> = Map_set (normalized_address t) t ?m"
    using addr by (simp add: add_dex_def normalized_address_def)
  also have "\<dots> = ?m @ [(normalized_address t, t)]"
    using fresh by (rule Map_set_new)
  finally show ?case by simp
qed

text \<open>
  C10. For every primary sequence whose records all have a non-empty address and whose
  normalized addresses are pairwise distinct, merging it with the empty secondary sequence
  returns the primary sequence itself, the same records in the same order.
\<close>

theorem merge_right_identity:
  assumes "\<forall>t\<in>set p. has_address t" and "distinct (map normalized_address p)"
  shows "mergeTokenData p [] = p"
  using dex_loop_clean [OF assms]
  by (simp add: mergeTokenData_def tokenMap_of_def Map_values_def comp_def)

theorem merge_right_identity_witness:
  "list_all has_address mockDexData \<and> distinct (map normalized_address mockDexData)
   \<and> mergeTokenData mockDexData [] = mockDexData"
proof -
  have h0: "list_all has_address mockDexData" by code_simp
  then have h1: "\<forall>t\<in>set mockDexData. has_address t" by (simp add: list_all_iff)
  have h2: "distinct (map normalized_address mockDexData)" by code_simp
  from merge_right_identity [OF h1 h2] h0 h2 show ?thesis by simp
qed

section \<open>The adapters\<close>

lemma map_throwing_null:
  "NullElement \<in> set es \<Longrightarrow> f NullElement = Inl TypeError \<Longrightarrow> \<exists>e. map_throwing f es = Inl e"
  by (induction es) (auto split: sum.splits)

lemma fetchDexScreenerData_total: "\<exists>tokens. fetchDexScreenerData rt r = Inr tokens"
  by (simp add: fetchDexScreenerData_def split: sum.splits)

lemma fetchJupiterData_total: "\<exists>tokens. fetchJupiterData r = Inr tokens"
  by (simp add: fetchJupiterData_def split: sum.splits)

lemma dex_failure_empty:
  assumes "dex_upstream_failure r"
  shows "fetchDexScreenerData rt r = Inr []"
proof (cases r)
  case NetworkFailure
  then show ?thesis
    by (simp add: fetchDexScreenerData_def fetchDexScreenerData_try_def axios_get_def)
next
  case (HttpResponse status d)
  show ?thesis
  proof (cases "200 \<le> status \<and> status < 300")
    case False
    with HttpResponse show ?thesis
      by (auto simp: fetchDexScreenerData_def fetchDexScreenerData_try_def axios_get_def)
  next
    case True
    show ?thesis
    proof (cases d)
      case (DexPairs pairs)
      with assms HttpResponse True have "NullElement \<in> set pairs"
        by (simp add: dex_upstream_failure_def)
      then obtain e where "map_throwing (dex_pair_token rt) pairs = Inl e"
        using map_throwing_null [of pairs "dex_pair_token rt"]
        by (auto simp: dex_pair_token_def)
      with HttpResponse True DexPairs show ?thesis
        by (simp add: fetchDexScreenerData_def fetchDexScreenerData_try_def axios_get_def)
    qed (use HttpResponse True in
      \<open>simp_all add: fetchDexScreenerData_def fetchDexScreenerData_try_def axios_get_def\<close>)
  qed
qed

lemma jup_failure_empty:
  assumes "jup_upstream_failure r"
  shows "fetchJupiterData r = Inr []"
proof (cases r)
  case NetworkFailure
  then show ?thesis
    by (simp add: fetchJupiterData_def fetchJupiterData_try_def axios_get_def)
next
  case (HttpResponse status d)
  show ?thesis
  proof (cases "200 \<le> status \<and> status < 300")
    case False
    with HttpResponse show ?thesis
      by (auto simp: fetchJupiterData_def fetchJupiterData_try_def axios_get_def)
  next
    case True
    show ?thesis
    proof (cases d)
      case (JupArray tokens)
      with assms HttpResponse True have "NullElement \<in> set tokens"
        by (simp add: jup_upstream_failure_def)
      then obtain e where "map_throwing jup_token_token tokens = Inl e"
        using map_throwing_null [of tokens jup_token_token]
        by (auto simp: jup_token_token_def)
      with HttpResponse True JupArray show ?thesis
        by (simp add: fetchJupiterData_def fetchJupiterData_try_def axios_get_def)
    qed (use HttpResponse True in
      \<open>simp_all add: fetchJupiterData_def fetchJupiterData_try_def axios_get_def\<close>)
  qed
qed

text \<open>Every exception of the block under \<^verbatim>\<open>try\<close> comes from one of the listed failures.\<close>

lemma map_throwing_Inl: "map_throwing f es = Inl e \<Longrightarrow> \<exists>x\<in>set es. f x = Inl e"
  by (induction es arbitrary: e) (auto split: sum.splits)

lemma dex_try_raises: "fetchDexScreenerData_try rt r = Inl e \<Longrightarrow> dex_upstream_failure r"
  by (cases r)
    (auto simp: fetchDexScreenerData_try_def axios_get_def dex_upstream_failure_def
      dex_pair_token_def split: if_splits dex_data.splits element.splits
      dest!: map_throwing_Inl)

lemma jup_try_raises: "fetchJupiterData_try r = Inl e \<Longrightarrow> jup_upstream_failure r"
  by (cases r)
    (auto simp: fetchJupiterData_try_def axios_get_def jup_upstream_failure_def
      jup_token_token_def split: if_splits jup_data.splits element.splits
      dest!: map_throwing_Inl)

text \<open>
  C8. Neither adapter ever raises to its caller: for every runtime and every upstream
  answer each returns a sequence. When the transport fails, the status is not a success,
  or the body lacks the array the adapter maps over or holds a \<^verbatim>\<open>null\<close> element, the
  sequence is empty; and every exception of the guarded block comes from one of these.
\<close>

theorem adapters_never_raise:
  "fetchDexScreenerData rt r \<noteq> Inl e
   \<and> fetchJupiterData r' \<noteq> Inl e
   \<and> (dex_upstream_failure r \<longrightarrow> fetchDexScreenerData rt r = Inr [])
   \<and> (jup_upstream_failure r' \<longrightarrow> fetchJupiterData r' = Inr [])
   \<and> (fetchDexScreenerData_try rt r = Inl e \<longrightarrow> dex_upstream_failure r)
   \<and> (fetchJupiterData_try r' = Inl e \<longrightarrow> jup_upstream_failure r')"
  using fetchDexScreenerData_total [of rt r] fetchJupiterData_total [of r']
    dex_failure_empty [of r rt] jup_failure_empty [of r']
    dex_try_raises [of rt r e] jup_try_raises [of r' e]
  by auto

theorem adapters_never_raise_witness:
  "dex_upstream_failure (HttpResponse 200 (DexPairs [Object (pairA ''1.5''), NullElement]))
   \<and> fetchDexScreenerData_try example_runtime
        (HttpResponse 200 (DexPairs [Object (pairA ''1.5''), NullElement])) = Inl TypeError
   \<and> fetchDexScreenerData example_runtime
        (HttpResponse 200 (DexPairs [Object (pairA ''1.5''), NullElement])) = Inr []
   \<and> jup_upstream_failure (HttpResponse 503 JupNoData)
   \<and> fetchJupiterData_try (HttpResponse 503 JupNoData) = Inl AxiosError
   \<and> fetchJupiterData (HttpResponse 503 JupNoData) = Inr []"
proof -
  let ?r = "HttpResponse 200 (DexPairs [Object (pairA ''1.5''), NullElement])"
  let ?r' = "HttpResponse 503 JupNoData :: jup_data http_result"
  have h1: "dex_upstream_failure ?r" by code_simp
  have h2: "jup_upstream_failure ?r'" by code_simp
  have h3: "fetchDexScreenerData_try example_runtime ?r = Inl TypeError" by code_simp
  have h4: "fetchJupiterData_try ?r' = Inl AxiosError" by code_simp
  from adapters_never_raise [of example_runtime ?r TypeError ?r'] h1 h2 h3 h4
  show ?thesis by blast
qed

section \<open>The orchestrator\<close>

lemma get_ok_connected: "CacheService_get rd now key = Inr c \<Longrightarrow> connected rd"
  by (simp add: CacheService_get_def client_get_def split: if_splits)

lemma fresh_tokens_eq:
  "fetchDexScreenerData rt (dex_http w (dex_url query)) = Inr d \<Longrightarrow>
   fetchJupiterData (jup_http w (jup_url query)) = Inr j \<Longrightarrow>
   fresh_tokens rt w query = mergeTokenData d j"
  by (simp add: fresh_tokens_def)

lemma miss_outcome:
  assumes get: "CacheService_get rd now (cacheKey query) = Inr c" and miss: "\<not> truthy_blob c"
  shows "getAggregatedData rt w rd now latency query =
     \<lparr> result = Inr (tokens_value (fresh_tokens rt w query)),
       store = rd\<lparr>entries := (entries rd)(cacheKey query \<mapsto>
                 (JSON_stringify (tokens_value (fresh_tokens rt w query)),
                  now + latency + cacheTTL))\<rparr>,
       requests = [dex_url query, jup_url query] \<rparr>"
proof -
  obtain d where d: "fetchDexScreenerData rt (dex_http w (dex_url query)) = Inr d"
    using fetchDexScreenerData_total by blast
  obtain j where j: "fetchJupiterData (jup_http w (jup_url query)) = Inr j"
    using fetchJupiterData_total by blast
  have conn: "connected rd" using get by (rule get_ok_connected)
  show ?thesis
    using get miss conn d j
    by (simp add: getAggregatedData_def fresh_tokens_eq [OF d j] CacheService_set_def
        client_set_def Let_def)
qed

lemma hit_outcome:
  assumes "CacheService_get rd now (cacheKey query) = Inr (Some b)" and "truthy_blob (Some b)"
  shows "getAggregatedData rt w rd now latency query =
     \<lparr> result = JSON_parse b, store = rd, requests = [] \<rparr>"
  using assms by (simp add: getAggregatedData_def)

text \<open>
  C5. The claim says that a failed cache read is treated as a miss. Neither
  \<^verbatim>\<open>CacheService.get\<close> nor \<^verbatim>\<open>getAggregatedData\<close> catches the rejection, so the claim
  does not hold. As amended: when the cache read fails, \<^verbatim>\<open>getAggregatedData\<close> rejects
  with the error of the read, calls no adapter and leaves the store as it is.
\<close>

theorem cache_read_failure_propagates:
  assumes "CacheService_get rd now (cacheKey query) = Inl e"
  shows "getAggregatedData rt w rd now latency query =
     \<lparr> result = Inl e, store = rd, requests = [] \<rparr>"
  using assms by (simp add: getAggregatedData_def)

theorem cache_read_failure_propagates_witness:
  "CacheService_get unreachable_store 0 (cacheKey ''SOL'') = Inl RedisError
   \<and> getAggregatedData example_runtime (example_world ''1.5'') unreachable_store 0 1 ''SOL'' =
       \<lparr> result = Inl RedisError, store = unreachable_store, requests = [] \<rparr>"
proof -
  have h: "CacheService_get unreachable_store 0 (cacheKey ''SOL'') = Inl RedisError"
    by code_simp
  from cache_read_failure_propagates [OF h] h show ?thesis by simp
qed

text \<open>
  With the store out of reach the call for SOL rejects with the error of the client and
  requests neither URL, where the same call on the empty store returns the merged
  sequence.
\<close>

theorem cache_read_failure_counterexample:
  "CacheService_get unreachable_store 0 (cacheKey ''SOL'') = Inl RedisError
   \<and> result (getAggregatedData example_runtime (example_world ''1.5'') unreachable_store 0 1 ''SOL'')
       = Inl RedisError
   \<and> requests (getAggregatedData example_runtime (example_world ''1.5'') unreachable_store 0 1 ''SOL'')
       = []
   \<and> result (getAggregatedData example_runtime (example_world ''1.5'') empty_store 0 1 ''SOL'')
       = Inr (tokens_value [tokenA, jupC])"
  by code_simp

text \<open>
  C9. The claim says that the key holds the normalized query. The key is the fixed
  prefix \<^verbatim>\<open>tokens_v5\<close>, a colon and the query as it was passed. As amended: for every
  query the entry read and written by \<^verbatim>\<open>getAggregatedData\<close> has the key
  \<^verbatim>\<open>tokens_v5:\<close> followed by the unchanged query, a miss writes nothing under any other
  key, and the entry written is readable up to, not including, 30 seconds after the write.
\<close>

theorem cache_entry_key_and_ttl:
  assumes "CacheService_get rd now (cacheKey query) = Inr c" and "\<not> truthy_blob c"
  shows "cacheKey query = ''tokens_v5:'' @ query
       \<and> entries (store (getAggregatedData rt w rd now latency query)) (''tokens_v5:'' @ query) =
           Some (JSON_stringify (tokens_value (fresh_tokens rt w query)), now + latency + 30)
       \<and> (key \<noteq> ''tokens_v5:'' @ query \<longrightarrow>
            entries (store (getAggregatedData rt w rd now latency query)) key = entries rd key)
       \<and> CacheService_get (store (getAggregatedData rt w rd now latency query)) t (cacheKey query) =
           Inr (if t < now + latency + 30
                then Some (JSON_stringify (tokens_value (fresh_tokens rt w query))) else None)"
  using get_ok_connected [OF assms(1)]
  by (simp add: miss_outcome [OF assms] cacheKey_def cacheTTL_def CacheService_get_def client_get_def)

theorem cache_entry_key_and_ttl_witness:
  "CacheService_get empty_store 7 (cacheKey ''SOL'') = Inr None
   \<and> \<not> truthy_blob None
   \<and> entries (store (getAggregatedData example_runtime (example_world ''1.5'') empty_store 7 2 ''SOL''))
       ''tokens_v5:SOL'' = Some (JSON_stringify (tokens_value [tokenA, jupC]), 39)
   \<and> CacheService_get
        (store (getAggregatedData example_runtime (example_world ''1.5'') empty_store 7 2 ''SOL''))
        38 (cacheKey ''SOL'') = Inr (Some (JSON_stringify (tokens_value [tokenA, jupC])))
   \<and> CacheService_get
        (store (getAggregatedData example_runtime (example_world ''1.5'') empty_store 7 2 ''SOL''))
        39 (cacheKey ''SOL'') = Inr None"
proof -
  have h1: "CacheService_get empty_store 7 (cacheKey ''SOL'') = Inr None" by code_simp
  have h2: "\<not> truthy_blob None" by code_simp
  have h3: "fresh_tokens example_runtime (example_world ''1.5'') ''SOL'' = [tokenA, jupC]"
    by code_simp
  have h4: "cacheKey ''SOL'' = ''tokens_v5:SOL''" by code_simp
  note inst = cache_entry_key_and_ttl [OF h1 h2, of example_runtime "example_world ''1.5''" 2 "[]"]
  from inst [of 38] inst [of 39] h1 h2 show ?thesis by (simp add: h3 h4)
qed

text \<open>
  The queries SOL and sol have the same lowercased form and different keys.
\<close>

theorem cache_key_counterexample:
  "toLowerCase ''SOL'' = toLowerCase ''sol''
   \<and> cacheKey ''SOL'' \<noteq> cacheKey ''sol''
   \<and> cacheKey ''SOL'' = ''tokens_v5:SOL''
   \<and> cacheKey ''SOL'' \<noteq> ''tokens_v5:'' @ toLowerCase ''SOL''"
  by code_simp

section \<open>Two calls within the lifetime of a cache entry\<close>

lemma json_exact_id: "json_exact v \<Longrightarrow> json_of v = v"
proof (induction v)
  case (JNum n)
  then show ?case by (cases n) (simp_all add: json_number_def)
next
  case (JArr vs)
  then show ?case by (simp add: list_all_iff map_idI)
next
  case (JObj kvs)
  have "map_prod id json_of kv = kv" if "kv \<in> set kvs" for kv
  proof -
    obtain k v where kv: "kv = (k, v)" by (cases kv)
    from that JObj.prems have "json_exact v"
      by (auto simp: kv list_all_iff)
    moreover from that have "v \<in> Basic_BNFs.snds kv" by (simp add: kv)
    ultimately have "json_of v = v"
      using JObj.IH that by blast
    then show ?thesis by (simp add: kv)
  qed
  then show ?case by (simp add: map_idI)
qed simp_all

lemma cache_roundtrip:
  assumes get: "CacheService_get rd t1 (cacheKey query) = Inr c" and miss: "\<not> truthy_blob c"
    and after: "t1 + latency \<le> t2" and window: "t2 < t1 + latency + cacheTTL"
  shows "requests (getAggregatedData rt w rd t1 latency query) = [dex_url query, jup_url query]"
    and "result (getAggregatedData rt w rd t1 latency query) =
           Inr (tokens_value (fresh_tokens rt w query))"
    and "getAggregatedData rt' w' (store (getAggregatedData rt w rd t1 latency query)) t2 latency' query =
           \<lparr> result = Inr (json_of (tokens_value (fresh_tokens rt w query))),
             store = store (getAggregatedData rt w rd t1 latency query),
             requests = [] \<rparr>"
proof -
  let ?first = "getAggregatedData rt w rd t1 latency query"
  let ?blob = "JSON_stringify (tokens_value (fresh_tokens rt w query))"
  note first = miss_outcome [OF get miss, of rt w latency]
  show "requests ?first = [dex_url query, jup_url query]"
    and "result ?first = Inr (tokens_value (fresh_tokens rt w query))"
    by (simp_all add: first)
  have conn: "connected rd" using get by (rule get_ok_connected)
  have "CacheService_get (store ?first) t2 (cacheKey query) = Inr (Some ?blob)"
    using window conn by (simp add: first CacheService_get_def client_get_def)
  moreover have "truthy_blob (Some ?blob)"
    by (simp add: truthy_blob_def JSON_stringify_def)
  ultimately have "getAggregatedData rt' w' (store ?first) t2 latency' query =
      \<lparr> result = JSON_parse ?blob, store = store ?first, requests = [] \<rparr>"
    by (rule hit_outcome)
  then show "getAggregatedData rt' w' (store ?first) t2 latency' query =
      \<lparr> result = Inr (json_of (tokens_value (fresh_tokens rt w query))),
        store = store ?first, requests = [] \<rparr>"
    by (simp add: JSON_parse_def JSON_stringify_def)
qed

text \<open>
  C6. The claim says that the second of two calls within the lifetime of the cache entry
  returns a result equal to the first. The entry is the text \<^verbatim>\<open>JSON.stringify\<close> writes, and
  that text does not carry every number. As amended: when the first call misses the cache
  and writes the entry, and the second call reads the cache after the first has returned
  and before the entry expires, the first call requests both upstream URLs, the second
  requests nothing, and the result of the second equals the result of the first whenever
  every number in the first result is finite and is not -0.
\<close>

theorem cache_roundtrip_idempotent:
  assumes "CacheService_get rd t1 (cacheKey query) = Inr c" and "\<not> truthy_blob c"
    and "t1 + latency \<le> t2" and "t2 < t1 + latency + cacheTTL"
  shows "\<exists>v. result (getAggregatedData rt w rd t1 latency query) = Inr v
           \<and> requests (getAggregatedData rt w rd t1 latency query) = [dex_url query, jup_url query]
           \<and> requests (getAggregatedData rt' w' (store (getAggregatedData rt w rd t1 latency query))
                 t2 latency' query) = []
           \<and> (json_exact v \<longrightarrow>
                 result (getAggregatedData rt' w' (store (getAggregatedData rt w rd t1 latency query))
                   t2 latency' query) = Inr v)"
proof (intro exI conjI impI)
  show "result (getAggregatedData rt w rd t1 latency query) =
      Inr (tokens_value (fresh_tokens rt w query))"
    by (rule cache_roundtrip(2) [OF assms])
  show "requests (getAggregatedData rt w rd t1 latency query) = [dex_url query, jup_url query]"
    by (rule cache_roundtrip(1) [OF assms])
  show "requests (getAggregatedData rt' w' (store (getAggregatedData rt w rd t1 latency query))
      t2 latency' query) = []"
    by (simp add: cache_roundtrip(3) [OF assms])
  assume "json_exact (tokens_value (fresh_tokens rt w query))"
  then show "result (getAggregatedData rt' w' (store (getAggregatedData rt w rd t1 latency query))
      t2 latency' query) = Inr (tokens_value (fresh_tokens rt w query))"
    by (simp add: cache_roundtrip(3) [OF assms] json_exact_id)
qed

theorem cache_roundtrip_idempotent_witness:
  "CacheService_get empty_store 0 (cacheKey ''SOL'') = Inr None
   \<and> \<not> truthy_blob None
   \<and> (5::nat) < 0 + 1 + cacheTTL
   \<and> json_exact (tokens_value [tokenA, jupC])
   \<and> result fine_first_call = Inr (tokens_value [tokenA, jupC])
   \<and> requests fine_first_call = [dex_url ''SOL'', jup_url ''SOL'']
   \<and> requests fine_second_call = []
   \<and> result fine_second_call = Inr (tokens_value [tokenA, jupC])"
proof -
  have h1: "CacheService_get empty_store 0 (cacheKey ''SOL'') = Inr None" by code_simp
  have h2: "\<not> truthy_blob None" by code_simp
  have h3: "(0::nat) + 1 \<le> 5" by simp
  have h4: "(5::nat) < 0 + 1 + cacheTTL" by (simp add: cacheTTL_def)
  have exact: "json_exact (tokens_value [tokenA, jupC])" by code_simp
  have first: "result fine_first_call = Inr (tokens_value [tokenA, jupC])" by code_simp
  from cache_roundtrip_idempotent [OF h1 h2 h3 h4,
    of example_runtime "example_world ''1.5''" example_runtime "example_world ''1.5''" 1]
  obtain v where v: "result fine_first_call = Inr v"
    and r1: "requests fine_first_call = [dex_url ''SOL'', jup_url ''SOL'']"
    and r2: "requests fine_second_call = []"
    and eq: "json_exact v \<longrightarrow> result fine_second_call = Inr v"
    unfolding fine_first_call_def fine_second_call_def by blast
  from v first have "v = tokens_value [tokenA, jupC]" by simp
  with eq exact have "result fine_second_call = Inr (tokens_value [tokenA, jupC])" by simp
  with h1 h2 h4 exact first r1 r2 show ?thesis by blast
qed

text \<open>
  With the price N/A the first call returns NaN for it, since that is what
  \<^verbatim>\<open>parseFloat\<close> gives; \<^verbatim>\<open>JSON.stringify\<close> writes NaN as \<^verbatim>\<open>null\<close>, and the second call,
  which requests nothing, returns \<^verbatim>\<open>null\<close> in its place.
\<close>

theorem cache_roundtrip_loses_nan:
  "requests nan_first_call = [dex_url ''SOL'', jup_url ''SOL'']
   \<and> result nan_first_call = Inr (tokens_value [tokenA\<lparr>price_sol := NaN\<rparr>, jupC])
   \<and> requests nan_second_call = []
   \<and> result nan_second_call = Inr (json_of (tokens_value [tokenA\<lparr>price_sol := NaN\<rparr>, jupC]))
   \<and> result nan_second_call \<noteq> result nan_first_call"
  by code_simp

end
